theory Spec2Isabelle
  imports Complex_Main "HOL-Library.Multiset" "HOL-Library.Sublist"
begin

section \<open>Completion relay (src/sync/completionSync.ts)\<close>

text \<open>
  JavaScript numbers are modelled by exact rationals (\<open>rat\<close>); counters that the code only
  ever increments from zero are \<open>nat\<close>. The result of \<open>Math.random()\<close>, the clock and the
  outcome of each file-system call are inputs of the functions that use them.
\<close>

record TaskCompletion =
  taskId :: string
  completedAt :: string
  duration :: rat
  blockId :: "string option"

record QueuedCompletion = TaskCompletion +
  retryCount :: nat
  queuedAt :: nat

definition MAX_RETRIES :: nat where
  "MAX_RETRIES = 5"

definition BASE_RETRY_DELAY_MS :: rat where
  "BASE_RETRY_DELAY_MS = 1000"

definition MAX_RETRY_DELAY_MS :: rat where
  "MAX_RETRY_DELAY_MS = 30000"

text \<open>
  What the completions file holds when it is read: no file, a file whose read or
  \<open>JSON.parse\<close> throws, a file whose JSON is not an array (its text is kept), or a JSON
  array. The elements of an array are taken to be objects with the fields of
  \<open>TaskCompletion\<close>, as the code's type says.
\<close>

datatype file_content =
  Missing
  | Unreadable
  | NonArray string
  | Entries "TaskCompletion list"

text \<open>What the environment does to the calls of one processing run.\<close>

record io_cond =
  dirOk :: bool
  writeOk :: bool
  rnd :: rat

text \<open>
  The module state: the three module-level variables, and the browser's pending timers
  (handle and delay) with the next fresh handle.
\<close>

record relay =
  pendingQueue :: "QueuedCompletion list"
  isProcessingQueue :: bool
  retryTimeout :: "nat option"
  timers :: "(nat \<times> rat) list"
  nextHandle :: nat

definition relay_init :: relay where
  "relay_init = \<lparr>pendingQueue = [], isProcessingQueue = False, retryTimeout = None,
     timers = [], nextHandle = 1\<rparr>"

definition setTimeout :: "rat \<Rightarrow> relay \<Rightarrow> relay" where
  "setTimeout delay st =
     st\<lparr>retryTimeout := Some (nextHandle st),
        timers := timers st @ [(nextHandle st, delay)],
        nextHandle := Suc (nextHandle st)\<rparr>"

definition clearTimeout :: "nat \<Rightarrow> relay \<Rightarrow> relay" where
  "clearTimeout h st = st\<lparr>timers := filter (\<lambda>t. fst t \<noteq> h) (timers st)\<rparr>"

text \<open>\<open>readExistingCompletions\<close>: every failure is caught and gives the empty list.\<close>

fun readExistingCompletions :: "file_content \<Rightarrow> TaskCompletion list" where
  "readExistingCompletions Missing = []"
| "readExistingCompletions Unreadable = []"
| "readExistingCompletions (NonArray s) = []"
| "readExistingCompletions (Entries cs) = cs"

text \<open>
  \<open>writeCompletionsToFile\<close>: throws (\<open>None\<close>) when the directory cannot be ensured or the
  write is rejected, and then leaves the file as it was; otherwise the file holds the array.
\<close>

definition writeCompletionsToFile :: "io_cond \<Rightarrow> TaskCompletion list \<Rightarrow> file_content option" where
  "writeCompletionsToFile io completions =
     (if \<not> dirOk io then None
      else if \<not> writeOk io then None
      else Some (Entries completions))"

definition getRetryDelay :: "nat \<Rightarrow> rat \<Rightarrow> rat" where
  "getRetryDelay n r =
     (let delay = min (BASE_RETRY_DELAY_MS * 2 ^ n) MAX_RETRY_DELAY_MS
      in delay + r * 1000)"

text \<open>The dedup key \<open>`${c.taskId}-${c.completedAt}`\<close>.\<close>

definition dedupKey :: "string \<Rightarrow> string \<Rightarrow> string" where
  "dedupKey t c = t @ ''-'' @ c"

definition toCompletion :: "QueuedCompletion \<Rightarrow> TaskCompletion" where
  "toCompletion queued =
     \<lparr>taskId = taskId queued, completedAt = completedAt queued,
      duration = duration queued, blockId = blockId queued\<rparr>"

definition stage :: "TaskCompletion list \<Rightarrow> QueuedCompletion list \<Rightarrow> TaskCompletion list" where
  "stage existing queue =
     (let existingKeys = set (map (\<lambda>c. dedupKey (taskId c) (completedAt c)) existing)
      in map toCompletion
           (filter (\<lambda>queued. dedupKey (taskId queued) (completedAt queued) \<notin> existingKeys) queue))"

text \<open>The \<open>catch\<close> block of \<open>processQueue\<close>.\<close>

definition requeue :: "QueuedCompletion list \<Rightarrow> QueuedCompletion list" where
  "requeue queue =
     map (\<lambda>item. item\<lparr>retryCount := retryCount item + 1\<rparr>)
       (filter (\<lambda>item. retryCount item < MAX_RETRIES) queue)"

definition minRetryCount :: "QueuedCompletion list \<Rightarrow> nat" where
  "minRetryCount queue = Min (set (map retryCount queue))"

definition onFailure :: "rat \<Rightarrow> relay \<Rightarrow> relay" where
  "onFailure r st =
     (let st1 = st\<lparr>pendingQueue := requeue (pendingQueue st)\<rparr>
      in if pendingQueue st1 \<noteq> [] then
           (let delay = getRetryDelay (minRetryCount (pendingQueue st1)) r;
                st2 = (case retryTimeout st1 of None \<Rightarrow> st1 | Some h \<Rightarrow> clearTimeout h st1)
            in setTimeout delay st2)
         else st1)"

text \<open>
  \<open>processQueue\<close> runs synchronously up to its first \<open>await\<close>: the guard and the flag.
  The rest of the run (\<open>processQueue_resume\<close>) happens later, on the queue as it is then,
  which holds what was recorded in the meantime. It is modelled as one step: no call of
  the module is taken to fall between its read and the end of its write.
\<close>

definition processQueue_start :: "relay \<Rightarrow> relay" where
  "processQueue_start st =
     (if isProcessingQueue st \<or> pendingQueue st = [] then st
      else st\<lparr>isProcessingQueue := True\<rparr>)"

definition processQueue_resume :: "io_cond \<Rightarrow> relay \<times> file_content \<Rightarrow> relay \<times> file_content" where
  "processQueue_resume io sf =
     (let st = fst sf; file = snd sf in
      if \<not> isProcessingQueue st then (st, file)
      else
        (let existing = readExistingCompletions file;
             newCompletions = stage existing (pendingQueue st)
         in if newCompletions \<noteq> [] then
              (case writeCompletionsToFile io (existing @ newCompletions) of
                 Some file' \<Rightarrow> (st\<lparr>pendingQueue := [], isProcessingQueue := False\<rparr>, file')
               | None \<Rightarrow> ((onFailure (rnd io) st)\<lparr>isProcessingQueue := False\<rparr>, file))
            else (st\<lparr>pendingQueue := [], isProcessingQueue := False\<rparr>, file)))"

text \<open>A whole run with nothing in between: the call and its continuation.\<close>

definition processQueue :: "io_cond \<Rightarrow> relay \<times> file_content \<Rightarrow> relay \<times> file_content" where
  "processQueue io sf =
     (if isProcessingQueue (fst sf) \<or> pendingQueue (fst sf) = [] then sf
      else processQueue_resume io (processQueue_start (fst sf), snd sf))"

text \<open>
  \<open>recordCompletion\<close>: \<open>isoNow\<close> is \<open>new Date().toISOString()\<close> and \<open>now\<close> is \<open>Date.now()\<close>.
  It returns after the synchronous part of \<open>processQueue\<close>.
\<close>

definition recordCompletion :: "string \<Rightarrow> rat \<Rightarrow> string option \<Rightarrow> string \<Rightarrow> nat \<Rightarrow> relay \<Rightarrow> relay" where
  "recordCompletion tid dur bid isoNow now st =
     (let completion = \<lparr>taskId = tid, completedAt = isoNow, duration = dur, blockId = bid,
                         retryCount = 0, queuedAt = now\<rparr>
      in processQueue_start (st\<lparr>pendingQueue := pendingQueue st @ [completion]\<rparr>))"

definition getPendingCount :: "relay \<Rightarrow> nat" where
  "getPendingCount st = length (pendingQueue st)"

text \<open>
  The callback of the retry timer with handle \<open>h\<close>, once the timer has run out (it is then
  no longer pending).
\<close>

definition retryTimerFires :: "nat \<Rightarrow> io_cond \<Rightarrow> relay \<times> file_content \<Rightarrow> relay \<times> file_content" where
  "retryTimerFires h io sf =
     processQueue io ((clearTimeout h (fst sf))\<lparr>retryTimeout := None\<rparr>, snd sf)"

definition retryPendingCompletions :: "io_cond \<Rightarrow> relay \<times> file_content \<Rightarrow> relay \<times> file_content" where
  "retryPendingCompletions io sf =
     processQueue io
       ((case retryTimeout (fst sf) of
           None \<Rightarrow> fst sf
         | Some h \<Rightarrow> (clearTimeout h (fst sf))\<lparr>retryTimeout := None\<rparr>), snd sf)"

definition clearPendingQueue :: "relay \<Rightarrow> relay" where
  "clearPendingQueue st =
     (let st1 = st\<lparr>pendingQueue := []\<rparr>
      in case retryTimeout st1 of
           None \<Rightarrow> st1
         | Some h \<Rightarrow> (clearTimeout h st1)\<lparr>retryTimeout := None\<rparr>)"

text \<open>
  A sequence of retry runs, one for each entry of the list. The callback of the pending
  retry timer and \<open>retryPendingCompletions\<close> do the same: forget the timer, then
  \<open>processQueue\<close>.
\<close>

fun runs :: "io_cond list \<Rightarrow> relay \<times> file_content \<Rightarrow> relay \<times> file_content" where
  "runs [] sf = sf"
| "runs (io # ios) sf = runs ios (retryPendingCompletions io sf)"

text \<open>The dedup keys of the file's entries, and the number of entries with a given key.\<close>

definition fileKeys :: "file_content \<Rightarrow> string set" where
  "fileKeys file =
     set (map (\<lambda>c. dedupKey (taskId c) (completedAt c)) (readExistingCompletions file))"

definition entriesWithKey :: "string \<Rightarrow> file_content \<Rightarrow> nat" where
  "entriesWithKey k file =
     length (filter (\<lambda>c. dedupKey (taskId c) (completedAt c) = k) (readExistingCompletions file))"

section \<open>Document store (src/sync/yjsProvider.ts, src/hooks/useBlocks.ts, src/hooks/useBreaks.ts)\<close>

text \<open>
  The entities of the models module. A field that may be absent (\<open>completedAt?\<close>) is an
  \<open>option\<close>. The five flags of \<open>BlockMeta\<close> are options as well: \<open>completeBlock\<close> builds a
  meta object by spreading a value that may be \<open>undefined\<close>, which leaves flags out.
\<close>

record BlockMeta =
  finishLinePictured :: "bool option"
  notInterrupted :: "bool option"
  committedToFocus :: "bool option"
  phoneSeparate :: "bool option"
  celebrated :: "bool option"

record Block =
  id_B :: string
  date :: string
  startedAt_B :: nat
  completedAt_B :: "nat option"
  taskId_B :: "string option"
  meta :: BlockMeta
  isValid :: bool
  notes_B :: "string option"

record Subtask =
  id_S :: string
  title_S :: string
  completed_S :: bool

record Task =
  id_T :: string
  title :: string
  subtasks :: "Subtask list"
  completed :: bool
  createdAt_T :: nat
  modifiedAt :: nat
  blocksSpent :: nat
  notes_T :: "string option"

record RightNowItem =
  id_I :: string
  text_I :: string
  completed_I :: bool

record RightNowList =
  id_L :: string
  blockId_L :: "string option"
  items :: "RightNowItem list"
  createdAt_L :: nat

record Break =
  id_K :: string
  startedAt_K :: nat
  endedAt :: "nat option"
  duration_K :: rat
  notes_K :: "string option"

text \<open>
  \<open>Partial<Block>\<close> and \<open>Partial<Break>\<close>: \<open>None\<close> is a key that the object does not have.
  For a field that may itself be \<open>undefined\<close>, \<open>Some None\<close> is the key with the value
  \<open>undefined\<close>.
\<close>

record BlockUpdates =
  u_id_B :: "string option"
  u_date :: "string option"
  u_startedAt_B :: "nat option"
  u_completedAt_B :: "nat option option"
  u_taskId_B :: "string option option"
  u_meta :: "BlockMeta option"
  u_isValid :: "bool option"
  u_notes_B :: "string option option"

record BreakUpdates =
  u_id_K :: "string option"
  u_startedAt_K :: "nat option"
  u_endedAt :: "nat option option"
  u_duration_K :: "rat option"
  u_notes_K :: "string option option"

definition noBlockUpdates :: BlockUpdates where
  "noBlockUpdates = \<lparr>u_id_B = None, u_date = None, u_startedAt_B = None, u_completedAt_B = None,
     u_taskId_B = None, u_meta = None, u_isValid = None, u_notes_B = None\<rparr>"

definition noBreakUpdates :: BreakUpdates where
  "noBreakUpdates = \<lparr>u_id_K = None, u_startedAt_K = None, u_endedAt = None,
     u_duration_K = None, u_notes_K = None\<rparr>"

text \<open>The object spread \<open>{ ...x, ...updates }\<close>: a key of \<open>updates\<close> wins.\<close>

definition orElse :: "'a option \<Rightarrow> 'a \<Rightarrow> 'a" where
  "orElse u v = (case u of None \<Rightarrow> v | Some w \<Rightarrow> w)"

definition spreadBlock :: "Block \<Rightarrow> BlockUpdates \<Rightarrow> Block" where
  "spreadBlock b u =
     \<lparr>id_B = orElse (u_id_B u) (id_B b),
      date = orElse (u_date u) (date b),
      startedAt_B = orElse (u_startedAt_B u) (startedAt_B b),
      completedAt_B = orElse (u_completedAt_B u) (completedAt_B b),
      taskId_B = orElse (u_taskId_B u) (taskId_B b),
      meta = orElse (u_meta u) (meta b),
      isValid = orElse (u_isValid u) (isValid b),
      notes_B = orElse (u_notes_B u) (notes_B b)\<rparr>"

definition spreadBreak :: "Break \<Rightarrow> BreakUpdates \<Rightarrow> Break" where
  "spreadBreak b u =
     \<lparr>id_K = orElse (u_id_K u) (id_K b),
      startedAt_K = orElse (u_startedAt_K u) (startedAt_K b),
      endedAt = orElse (u_endedAt u) (endedAt b),
      duration_K = orElse (u_duration_K u) (duration_K b),
      notes_K = orElse (u_notes_K u) (notes_K b)\<rparr>"

text \<open>
  The shared document: the five collections, and the log of the transactions made with
  \<open>ydoc.transact\<close>, each with the operations it grouped.
\<close>

datatype collection = BlocksArray | BreaksArray

datatype yop = YDelete collection nat nat | YInsert collection nat nat

record ydoc =
  blocksArray :: "Block list"
  tasksMap :: "string \<rightharpoonup> Task"
  rightNowListsMap :: "string \<rightharpoonup> RightNowList"
  breaksArray :: "Break list"
  taskNotesMap :: "string \<rightharpoonup> string"
  transactions :: "yop list list"

definition ydoc_empty :: ydoc where
  "ydoc_empty = \<lparr>blocksArray = [], tasksMap = Map.empty, rightNowListsMap = Map.empty,
     breaksArray = [], taskNotesMap = Map.empty, transactions = []\<rparr>"

text \<open>
  \<open>Array.prototype.findIndex\<close> (\<open>None\<close> is \<open>-1\<close>) and \<open>find\<close>, and the two operations of a
  shared array. The index given to them below comes from \<open>findIndex\<close> and is in range.
\<close>

fun findIndex :: "('a \<Rightarrow> bool) \<Rightarrow> 'a list \<Rightarrow> nat option" where
  "findIndex P [] = None"
| "findIndex P (x # xs) = (if P x then Some 0 else map_option Suc (findIndex P xs))"

definition yarray_delete :: "nat \<Rightarrow> nat \<Rightarrow> 'a list \<Rightarrow> 'a list" where
  "yarray_delete index len xs = take index xs @ drop (index + len) xs"

definition yarray_insert :: "nat \<Rightarrow> 'a list \<Rightarrow> 'a list \<Rightarrow> 'a list" where
  "yarray_insert index content xs = take index xs @ content @ drop index xs"

definition addBlock :: "Block \<Rightarrow> ydoc \<Rightarrow> ydoc" where
  "addBlock block d = d\<lparr>blocksArray := blocksArray d @ [block]\<rparr>"

definition updateBlock :: "string \<Rightarrow> BlockUpdates \<Rightarrow> ydoc \<Rightarrow> ydoc" where
  "updateBlock ident updates d =
     (let blocks = blocksArray d in
      case findIndex (\<lambda>b. id_B b = ident) blocks of
        None \<Rightarrow> d
      | Some index \<Rightarrow>
          (let updated = spreadBlock (blocks ! index) updates
           in d\<lparr>blocksArray :=
                  yarray_insert index [updated] (yarray_delete index 1 (blocksArray d)),
                transactions := transactions d
                  @ [[YDelete BlocksArray index 1, YInsert BlocksArray index 1]]\<rparr>))"

definition addTask :: "Task \<Rightarrow> ydoc \<Rightarrow> ydoc" where
  "addTask task d = d\<lparr>tasksMap := (tasksMap d)(id_T task \<mapsto> task)\<rparr>"

definition addBreak :: "Break \<Rightarrow> ydoc \<Rightarrow> ydoc" where
  "addBreak breakItem d = d\<lparr>breaksArray := breaksArray d @ [breakItem]\<rparr>"

definition updateBreak :: "string \<Rightarrow> BreakUpdates \<Rightarrow> ydoc \<Rightarrow> ydoc" where
  "updateBreak ident updates d =
     (let breaks = breaksArray d in
      case findIndex (\<lambda>b. id_K b = ident) breaks of
        None \<Rightarrow> d
      | Some index \<Rightarrow>
          (let updated = spreadBreak (breaks ! index) updates
           in d\<lparr>breaksArray :=
                  yarray_insert index [updated] (yarray_delete index 1 (breaksArray d)),
                transactions := transactions d
                  @ [[YDelete BreaksArray index 1, YInsert BreaksArray index 1]]\<rparr>))"

text \<open>
  The hook \<open>useBlocks\<close>. \<open>completeBlock\<close> reads the meta flags from \<open>blocks\<close>, the hook's
  copy of the array (its React state), and \<open>now\<close> is \<open>Date.now()\<close>.
\<close>

definition completeBlock :: "Block list \<Rightarrow> string \<Rightarrow> bool \<Rightarrow> nat \<Rightarrow> ydoc \<Rightarrow> ydoc" where
  "completeBlock blocks ident celebrate now d =
     updateBlock ident
       (noBlockUpdates\<lparr>
          u_completedAt_B := Some (Some now),
          u_meta := Some
            ((case find (\<lambda>b. id_B b = ident) blocks of
                None \<Rightarrow> \<lparr>finishLinePictured = None, notInterrupted = None,
                          committedToFocus = None, phoneSeparate = None, celebrated = None\<rparr>
              | Some b \<Rightarrow> meta b)\<lparr>celebrated := Some celebrate\<rparr>)\<rparr>)
       d"

definition invalidateBlock :: "string \<Rightarrow> ydoc \<Rightarrow> ydoc" where
  "invalidateBlock ident d = updateBlock ident (noBlockUpdates\<lparr>u_isValid := Some False\<rparr>) d"

definition updateBlockNotes :: "string \<Rightarrow> string \<Rightarrow> ydoc \<Rightarrow> ydoc" where
  "updateBlockNotes ident notes d =
     updateBlock ident (noBlockUpdates\<lparr>u_notes_B := Some (Some notes)\<rparr>) d"

text \<open>The hook \<open>useBreaks\<close>: \<open>endBreak\<close> passes the key \<open>notes\<close> even when it is undefined.\<close>

definition endBreak :: "string \<Rightarrow> string option \<Rightarrow> nat \<Rightarrow> ydoc \<Rightarrow> ydoc" where
  "endBreak ident notes now d =
     updateBreak ident (noBreakUpdates\<lparr>u_endedAt := Some (Some now), u_notes_K := Some notes\<rparr>) d"

section \<open>External task importer (the hook useSubeteTasks, src/unnamed/part_006)\<close>

record SubeteTask =
  id_U :: string
  content :: string
  status :: string
  value_U :: rat
  time_U :: rat
  tags :: "string list option"

datatype SyncStatus = StatusSynced | StatusSyncing | StatusOffline | StatusError

definition MAX_RETRIES_tasks :: nat where
  "MAX_RETRIES_tasks = 3"

text \<open>
  What one attempt to read the shared file meets: no file, a file with a JSON array of
  tasks, a file whose JSON is not an array, or a call (\<open>exists\<close>, \<open>readTextFile\<close>,
  \<open>JSON.parse\<close>) that throws an error with the given message.
\<close>

datatype read_attempt =
  FileAbsent
  | FileArray "SubeteTask list"
  | FileNotArray
  | Throws string

text \<open>
  \<open>String.prototype.toLowerCase\<close> on ASCII letters, and \<open>String.prototype.includes\<close> as the contiguous
  sublist test.
\<close>

definition lowerChar :: "char \<Rightarrow> char" where
  "lowerChar c =
     (case map_of (zip ''ABCDEFGHIJKLMNOPQRSTUVWXYZ'' ''abcdefghijklmnopqrstuvwxyz'') c of
        None \<Rightarrow> c
      | Some l \<Rightarrow> l)"

definition toLowerCase :: "string \<Rightarrow> string" where
  "toLowerCase s = map lowerChar s"

definition includes_js :: "string \<Rightarrow> string \<Rightarrow> bool" where
  "includes_js s part = sublist part s"

definition isRetryable :: "string \<Rightarrow> bool" where
  "isRetryable message =
     (let errorMessage = toLowerCase message
      in includes_js errorMessage ''lock'' \<or> includes_js errorMessage ''busy''
       \<or> includes_js errorMessage ''ebusy'' \<or> includes_js errorMessage ''eagain'')"

text \<open>
  \<open>readSharedTasks\<close>: the \<open>for\<close> loop from \<open>attempt\<close> on, with the outcome of each attempt
  given by \<open>env\<close>. The result is the thrown message (\<open>Inl\<close>) or the tasks with the flag
  \<open>fromCache\<close>. The waiting between attempts has no effect on the result and is left out.
\<close>

function readSharedTasks_from ::
  "(nat \<Rightarrow> read_attempt) \<Rightarrow> nat \<Rightarrow> nat \<Rightarrow> string option \<Rightarrow> string + (SubeteTask list \<times> bool)" where
  "readSharedTasks_from env retries attempt lastError =
     (if attempt < retries then
        (case env attempt of
           FileAbsent \<Rightarrow> Inr ([], False)
         | FileArray ts \<Rightarrow> Inr (ts, False)
         | FileNotArray \<Rightarrow>
             (if isRetryable ''Invalid tasks format: expected array'' \<and> attempt < retries - 1
              then readSharedTasks_from env retries (Suc attempt)
                     (Some ''Invalid tasks format: expected array'')
              else Inl ''Invalid tasks format: expected array'')
         | Throws message \<Rightarrow>
             (if isRetryable message \<and> attempt < retries - 1
              then readSharedTasks_from env retries (Suc attempt) (Some message)
              else Inl message))
      else Inl (case lastError of None \<Rightarrow> ''Failed to read shared tasks'' | Some m \<Rightarrow> m))"
  by pat_completeness auto
termination
  by (relation "measure (\<lambda>(env, retries, attempt, lastError). retries - attempt)") auto

definition readSharedTasks :: "(nat \<Rightarrow> read_attempt) \<Rightarrow> string + (SubeteTask list \<times> bool)" where
  "readSharedTasks env = readSharedTasks_from env MAX_RETRIES_tasks 0 None"

text \<open>The toasts the hook shows, by kind (the numbers are those put into the message).\<close>

datatype toast =
  TasksSynced nat
  | TaskListUpdated nat
  | SyncRestored
  | FileLocked
  | InvalidFormat
  | SyncUnavailable

text \<open>
  The state of the hook: its four React states, its four refs, the entry of
  \<open>localStorage\<close> that caches the tasks, and the toasts shown so far.
\<close>

record importer =
  tasks :: "SubeteTask list"
  loading :: bool
  error :: "string option"
  syncStatus :: SyncStatus
  previousTaskCount :: "nat option"
  hasInitialLoad :: bool
  lastError :: "string option"
  consecutiveErrors :: nat
  cache :: "SubeteTask list option"
  toasts :: "toast list"

definition loadCachedTasks :: "SubeteTask list option \<Rightarrow> SubeteTask list" where
  "loadCachedTasks cached = (case cached of None \<Rightarrow> [] | Some ts \<Rightarrow> ts)"

text \<open>The state when the hook mounts, with the given cache entry.\<close>

definition importer_init :: "SubeteTask list option \<Rightarrow> importer" where
  "importer_init cached =
     \<lparr>tasks = loadCachedTasks cached, loading = True, error = None,
      syncStatus = StatusSyncing, previousTaskCount = None, hasInitialLoad = False,
      lastError = None, consecutiveErrors = 0, cache = cached, toasts = []\<rparr>"

definition showToast :: "toast \<Rightarrow> importer \<Rightarrow> importer" where
  "showToast t st = st\<lparr>toasts := toasts st @ [t]\<rparr>"

definition onReadSuccess :: "SubeteTask list \<Rightarrow> bool \<Rightarrow> importer \<Rightarrow> importer" where
  "onReadSuccess sharedTasks fromCache st =
     (let previousCount = previousTaskCount st;
          newCount = length sharedTasks;
          st1 = st\<lparr>tasks := sharedTasks, error := None,
                   syncStatus := (if fromCache then StatusOffline else StatusSynced),
                   consecutiveErrors := 0\<rparr>;
          st2 = (if \<not> fromCache \<and> length sharedTasks > 0
                 then st1\<lparr>cache := Some sharedTasks\<rparr> else st1);
          st3 = (case previousCount of
                   None \<Rightarrow> st2
                 | Some previous \<Rightarrow>
                     if hasInitialLoad st2 \<and> newCount \<noteq> previous then
                       (if newCount > previous then showToast (TasksSynced (newCount - previous)) st2
                        else showToast (TaskListUpdated newCount) st2)
                     else st2);
          st4 = (case lastError st3 of
                   None \<Rightarrow> st3
                 | Some m \<Rightarrow> if m \<noteq> [] then (showToast SyncRestored st3)\<lparr>lastError := None\<rparr>
                            else st3)
      in st4\<lparr>previousTaskCount := Some newCount, hasInitialLoad := True\<rparr>)"

definition onReadFailure :: "string \<Rightarrow> importer \<Rightarrow> importer" where
  "onReadFailure errorMessage st =
     (let st1 = st\<lparr>error := Some errorMessage, syncStatus := StatusError,
                   consecutiveErrors := consecutiveErrors st + 1\<rparr>;
          shouldShowToast = (hasInitialLoad st1 \<and> lastError st1 \<noteq> Some errorMessage
                              \<and> consecutiveErrors st1 \<le> 3)
      in if shouldShowToast then
           (if includes_js errorMessage ''locked'' \<or> includes_js errorMessage ''EBUSY''
               \<or> includes_js errorMessage ''busy''
            then showToast FileLocked st1
            else if includes_js errorMessage ''ENOENT'' \<or> includes_js errorMessage ''not found''
            then st1\<lparr>syncStatus := StatusOffline\<rparr>
            else if includes_js errorMessage ''parse'' \<or> includes_js errorMessage ''JSON''
            then showToast InvalidFormat st1
            else showToast SyncUnavailable st1)\<lparr>lastError := Some errorMessage\<rparr>
         else st1)"

text \<open>One poll: \<open>refresh\<close>.\<close>

definition refresh :: "(nat \<Rightarrow> read_attempt) \<Rightarrow> importer \<Rightarrow> importer" where
  "refresh env st =
     (let st0 = st\<lparr>syncStatus := StatusSyncing\<rparr>
      in (case readSharedTasks env of
            Inr (sharedTasks, fromCache) \<Rightarrow> onReadSuccess sharedTasks fromCache st0
          | Inl errorMessage \<Rightarrow> onReadFailure errorMessage st0)\<lparr>loading := False\<rparr>)"

definition filterTasksByStatus :: "SubeteTask list \<Rightarrow> string list \<Rightarrow> SubeteTask list" where
  "filterTasksByStatus ts statuses = filter (\<lambda>task. status task \<in> set statuses) ts"

text \<open>
  Numbers that can be infinite or \<open>NaN\<close>: the ratios and the result of the comparator.
  The division of two doubles is a parameter \<open>dv\<close> of the functions below, so that nothing
  is assumed about its rounding; \<open>js_div\<close> is the exact division. The difference of two
  ratios is used for its sign only, which the subtraction of doubles gives exactly.
\<close>

datatype jsnum = Num rat | PosInf | NegInf | NaN

definition js_div :: "rat \<Rightarrow> rat \<Rightarrow> jsnum" where
  "js_div x y =
     (if y \<noteq> 0 then Num (x / y)
      else if x > 0 then PosInf else if x < 0 then NegInf else NaN)"

fun js_minus :: "jsnum \<Rightarrow> jsnum \<Rightarrow> jsnum" where
  "js_minus (Num x) (Num y) = Num (x - y)"
| "js_minus NaN _ = NaN"
| "js_minus _ NaN = NaN"
| "js_minus PosInf PosInf = NaN"
| "js_minus NegInf NegInf = NaN"
| "js_minus PosInf _ = PosInf"
| "js_minus NegInf _ = NegInf"
| "js_minus (Num x) PosInf = NegInf"
| "js_minus (Num x) NegInf = PosInf"

text \<open>The comparison \<open>x <= y\<close> of two numbers.\<close>

fun js_le :: "jsnum \<Rightarrow> jsnum \<Rightarrow> bool" where
  "js_le NaN _ = False"
| "js_le _ NaN = False"
| "js_le NegInf _ = True"
| "js_le _ PosInf = True"
| "js_le (Num x) (Num y) = (x \<le> y)"
| "js_le _ _ = False"

text \<open>
  \<open>Array.prototype.sort\<close> with a comparator: a \<open>NaN\<close> from the comparator counts as
  \<open>+0\<close>, and the sort is stable. For a consistent comparator the result is the one that
  stable insertion gives: \<open>x\<close> moves behind \<open>y\<close> only when \<open>comparefn(x, y) > 0\<close>.
\<close>

fun js_positive :: "jsnum \<Rightarrow> bool" where
  "js_positive (Num x) = (0 < x)"
| "js_positive PosInf = True"
| "js_positive NegInf = False"
| "js_positive NaN = False"

fun insert_sorted :: "('a \<Rightarrow> 'a \<Rightarrow> jsnum) \<Rightarrow> 'a \<Rightarrow> 'a list \<Rightarrow> 'a list" where
  "insert_sorted comparefn x [] = [x]"
| "insert_sorted comparefn x (y # ys) =
     (if js_positive (comparefn x y) then y # insert_sorted comparefn x ys else x # y # ys)"

definition array_sort :: "('a \<Rightarrow> 'a \<Rightarrow> jsnum) \<Rightarrow> 'a list \<Rightarrow> 'a list" where
  "array_sort comparefn xs = foldr (insert_sorted comparefn) xs []"

definition ratio :: "(rat \<Rightarrow> rat \<Rightarrow> jsnum) \<Rightarrow> SubeteTask \<Rightarrow> jsnum" where
  "ratio dv a =
     (if time_U a > 0 then dv (value_U a) (time_U a)
      else (if value_U a > 0 then PosInf else Num 0))"

definition comparePriority :: "(rat \<Rightarrow> rat \<Rightarrow> jsnum) \<Rightarrow> SubeteTask \<Rightarrow> SubeteTask \<Rightarrow> jsnum" where
  "comparePriority dv a b =
     (let ratioA = ratio dv a; ratioB = ratio dv b in js_minus ratioB ratioA)"

definition sortTasksByPriority :: "(rat \<Rightarrow> rat \<Rightarrow> jsnum) \<Rightarrow> SubeteTask list \<Rightarrow> SubeteTask list" where
  "sortTasksByPriority dv ts = array_sort (comparePriority dv) ts"

text \<open>A ratio of nonnegative fields: a nonnegative number or \<open>Infinity\<close>.\<close>

fun nonnegative :: "jsnum \<Rightarrow> bool" where
  "nonnegative (Num x) = (0 \<le> x)"
| "nonnegative PosInf = True"
| "nonnegative NegInf = False"
| "nonnegative NaN = False"

section \<open>Remote reconciler (src/sync/firebaseSync.ts)\<close>

datatype SyncState = Synced | Syncing | Offline | Error

text \<open>
  The remote record. An update is the list of the changes it carries and stands for the
  bytes that encode them (base64 is not modelled); the full state of the document is the
  update with all the changes applied to it so far. A field that the stored record may
  lack is an \<open>option\<close>.
\<close>

type_synonym yupdate = "string list"

record remote_record =
  update_R :: "yupdate option"
  fullState :: "yupdate option"
  origin_R :: string
  timestamp :: nat

text \<open>
  What the environment does during one exchange: whether \<open>getDoc\<close> and \<open>setDoc\<close> resolve,
  whether \<open>encodeUpdate\<close> returns for the bytes it is given (it spreads them into
  \<open>String.fromCharCode\<close>, which throws when they are too many), whether decoding and
  applying a received update goes through, and the clock.
\<close>

record net_cond =
  getDocOk :: bool
  setDocOk :: bool
  encodeOk :: bool
  applyOk :: bool
  nowMs :: nat

text \<open>
  The module state and what it acts on: the sync state, the snapshot subscription (the
  record it listens to), the \<open>update\<close> handlers attached to the document (each with the
  record it writes to), the changes applied to the document with their origins, the
  \<open>setDoc\<close> calls made, the remote records, and this replica's client id.
\<close>

record reconciler =
  syncState :: SyncState
  unsubscribe :: "string option"
  pushListeners :: "string list"
  docUpdates :: "(string \<times> string) list"
  setDocCalls :: "(string \<times> remote_record) list"
  remote :: "string \<rightharpoonup> remote_record"
  clientId :: string

definition reconciler_init :: "string \<Rightarrow> reconciler" where
  "reconciler_init cid =
     \<lparr>syncState = Offline, unsubscribe = None, pushListeners = [], docUpdates = [],
      setDocCalls = [], remote = Map.empty, clientId = cid\<rparr>"

definition ANONYMOUS_DOC_ID :: string where
  "ANONYMOUS_DOC_ID = ''sanjou-sync-anonymous''"

definition getSyncDocId :: "string option \<Rightarrow> string" where
  "getSyncDocId user = (case user of Some uid \<Rightarrow> uid | None \<Rightarrow> ANONYMOUS_DOC_ID)"

definition setSyncState :: "SyncState \<Rightarrow> reconciler \<Rightarrow> reconciler" where
  "setSyncState state st = st\<lparr>syncState := state\<rparr>"

definition encodeStateAsUpdate :: "reconciler \<Rightarrow> yupdate" where
  "encodeStateAsUpdate st = map fst (docUpdates st)"

text \<open>\<open>setDoc\<close>: the call is made; the record is stored when it resolves.\<close>

definition setDoc :: "bool \<Rightarrow> string \<Rightarrow> remote_record \<Rightarrow> reconciler \<Rightarrow> reconciler" where
  "setDoc ok ref data st =
     (let st1 = st\<lparr>setDocCalls := setDocCalls st @ [(ref, data)]\<rparr>
      in if ok then st1\<lparr>remote := (remote st1)(ref \<mapsto> data)\<rparr> else st1)"

text \<open>\<open>encodeUpdate\<close>: \<open>None\<close> is the exception it throws.\<close>

definition encodeUpdate :: "net_cond \<Rightarrow> yupdate \<Rightarrow> yupdate option" where
  "encodeUpdate net upd = (if encodeOk net then Some upd else None)"

text \<open>
  The handler of the document's \<open>update\<close> event that \<open>setupSync\<close> attaches. The record is
  built inside the \<open>try\<close>, before \<open>setDoc\<close> is called: when an encoding throws, no call is
  made and the \<open>catch\<close> sets the state.
\<close>

definition pushHandler :: "net_cond \<Rightarrow> yupdate \<Rightarrow> string \<Rightarrow> reconciler \<Rightarrow> string \<Rightarrow> reconciler" where
  "pushHandler net upd origin st ref =
     (if origin = ''firebase'' then st
      else
        (let st1 = setSyncState Syncing st in
         case encodeUpdate net upd of
           None \<Rightarrow> setSyncState Offline st1
         | Some update \<Rightarrow>
             (case encodeUpdate net (encodeStateAsUpdate st1) of
                None \<Rightarrow> setSyncState Offline st1
              | Some state \<Rightarrow>
                  (let st2 = setDoc (setDocOk net) ref
                               \<lparr>update_R = Some update, fullState = Some state,
                                origin_R = clientId st1, timestamp = nowMs net\<rparr> st1
                   in if setDocOk net then setSyncState Synced st2
                      else setSyncState Offline st2))))"

text \<open>
  An update applied to the document with the given origin (a local mutation, or
  \<open>Y.applyUpdate\<close>): the document emits \<open>update\<close> to every attached handler.
\<close>

definition ydocUpdate :: "net_cond \<Rightarrow> yupdate \<Rightarrow> string \<Rightarrow> reconciler \<Rightarrow> reconciler" where
  "ydocUpdate net upd origin st =
     foldl (pushHandler net upd origin)
       (st\<lparr>docUpdates := docUpdates st @ map (\<lambda>change. (change, origin)) upd\<rparr>)
       (pushListeners st)"

text \<open>
  The two callbacks of \<open>onSnapshot\<close>; they run only while the subscription exists. An
  update that the record has counts as truthy. Each callback, like the push handler above,
  is modelled as one step.
\<close>

definition onSnapshotNext :: "net_cond \<Rightarrow> remote_record option \<Rightarrow> reconciler \<Rightarrow> reconciler" where
  "onSnapshotNext net snapshot st =
     (if unsubscribe st = None then st
      else
        (let st1 =
           (case snapshot of
              None \<Rightarrow> st
            | Some data \<Rightarrow>
                (case update_R data of
                   None \<Rightarrow> st
                 | Some upd \<Rightarrow>
                     if origin_R data \<noteq> clientId st then
                       (if applyOk net then ydocUpdate net upd ''firebase'' st else st)
                     else st))
         in setSyncState Synced st1))"

definition onSnapshotError :: "reconciler \<Rightarrow> reconciler" where
  "onSnapshotError st = (if unsubscribe st = None then st else setSyncState Offline st)"

text \<open>\<open>setupSync\<close>: \<open>Inl\<close> is the state in which it throws.\<close>

definition setupSync :: "net_cond \<Rightarrow> string \<Rightarrow> reconciler \<Rightarrow> reconciler + reconciler" where
  "setupSync net ref st =
     (let st1 = st\<lparr>unsubscribe := Some ref, pushListeners := pushListeners st @ [ref]\<rparr>
      in if \<not> getDocOk net then Inl st1
         else
           (case remote st1 ref of
              None \<Rightarrow>
                (case encodeUpdate net (encodeStateAsUpdate st1) of
                   None \<Rightarrow> Inl st1
                 | Some state \<Rightarrow>
                     (let st2 = setDoc (setDocOk net) ref
                                  \<lparr>update_R = Some state, fullState = Some state,
                                   origin_R = clientId st1, timestamp = nowMs net\<rparr> st1
                      in if setDocOk net then Inr st2 else Inl st2))
            | Some data \<Rightarrow>
                (case fullState data of
                   None \<Rightarrow> Inr st1
                 | Some state \<Rightarrow>
                     if applyOk net then Inr (ydocUpdate net state ''firebase'' st1)
                     else Inr st1)))"

definition initFirebaseSync ::
  "bool \<Rightarrow> bool \<Rightarrow> string option \<Rightarrow> net_cond \<Rightarrow> reconciler \<Rightarrow> reconciler" where
  "initFirebaseSync configured dbOk user net st =
     (if \<not> configured then setSyncState Offline st
      else if \<not> dbOk then setSyncState Error st
      else
        (case setupSync net (getSyncDocId user) (setSyncState Syncing st) of
           Inr st' \<Rightarrow> setSyncState Synced st'
         | Inl st' \<Rightarrow> setSyncState Error st'))"

definition destroyFirebaseSync :: "reconciler \<Rightarrow> reconciler" where
  "destroyFirebaseSync st = setSyncState Offline (st\<lparr>unsubscribe := None\<rparr>)"

text \<open>
  The callback that \<open>initAuthAwareSync\<close> gives to \<open>subscribeToAuthState\<close>: it runs on
  every change of the auth state, with \<open>user\<close> the current user then.
\<close>

definition authStateCallback ::
  "bool \<Rightarrow> bool \<Rightarrow> string option \<Rightarrow> net_cond \<Rightarrow> reconciler \<Rightarrow> reconciler" where
  "authStateCallback configured dbOk user net st =
     initFirebaseSync configured dbOk user net (destroyFirebaseSync st)"

section \<open>Example inputs\<close>

definition q42 :: QueuedCompletion where
  "q42 = \<lparr>taskId = ''42'', completedAt = ''2024-01-01T00:00:00.000Z'', duration = 25,
     blockId = None, retryCount = 0, queuedAt = 1704067200000\<rparr>"

definition io_fail :: io_cond where
  "io_fail = \<lparr>dirOk = True, writeOk = False, rnd = 1 / 2\<rparr>"

definition io_ok :: io_cond where
  "io_ok = \<lparr>dirOk = True, writeOk = True, rnd = 1 / 2\<rparr>"

text \<open>
  The relay after the completion \<open>q42\<close> was recorded, with no file yet, and the run this
  started has failed: the first failed attempt.
\<close>

definition relay_failed_once :: "relay \<times> file_content" where
  "relay_failed_once =
     processQueue_resume io_fail
       (recordCompletion ''42'' 25 None ''2024-01-01T00:00:00.000Z'' 1704067200000 relay_init,
        Missing)"

text \<open>
  A state with a retry timer pending and a run in flight: after the first failed attempt a
  second completion was recorded.
\<close>

definition relay_retrying :: relay where
  "relay_retrying =
     recordCompletion ''43'' 25 None ''2024-01-01T00:00:01.000Z'' 1704067201000
       (fst relay_failed_once)"

text \<open>
  The scenario of the specification: a task \<open>Write report\<close>, a block that refers to it with
  all five flags true, and a second block and a break beside them.
\<close>

definition allTrue :: BlockMeta where
  "allTrue = \<lparr>finishLinePictured = Some True, notInterrupted = Some True,
     committedToFocus = Some True, phoneSeparate = Some True, celebrated = Some True\<rparr>"

definition task1 :: Task where
  "task1 = \<lparr>id_T = ''t1'', title = ''Write report'', subtasks = [], completed = False,
     createdAt_T = 1704067200000, modifiedAt = 1704067200000, blocksSpent = 0, notes_T = None\<rparr>"

definition block1 :: Block where
  "block1 = \<lparr>id_B = ''b1'', date = ''2024-01-01'', startedAt_B = 1704067200000,
     completedAt_B = None, taskId_B = Some ''t1'', meta = allTrue, isValid = True,
     notes_B = None\<rparr>"

definition block2 :: Block where
  "block2 = block1\<lparr>id_B := ''b2'', taskId_B := None\<rparr>"

definition break1 :: Break where
  "break1 = \<lparr>id_K = ''k1'', startedAt_K = 1704068700000, endedAt = None, duration_K = 5,
     notes_K = None\<rparr>"

definition doc1 :: ydoc where
  "doc1 = addBreak break1 (addBlock block2 (addBlock block1 (addTask task1 ydoc_empty)))"

text \<open>Tasks of the external file, and the hook after it has read two of them.\<close>

definition taskA :: SubeteTask where
  "taskA = \<lparr>id_U = ''a'', content = ''Write report'', status = ''today'', value_U = 3,
     time_U = 2, tags = None\<rparr>"

definition taskB :: SubeteTask where
  "taskB = \<lparr>id_U = ''b'', content = ''Inbox'', status = ''today'', value_U = 0,
     time_U = 0, tags = None\<rparr>"

definition taskC :: SubeteTask where
  "taskC = \<lparr>id_U = ''c'', content = ''Call back'', status = ''in_progress'', value_U = 5,
     time_U = 0, tags = Some [''phone'']\<rparr>"

definition taskD :: SubeteTask where
  "taskD = \<lparr>id_U = ''d'', content = ''Review'', status = ''today'', value_U = 4,
     time_U = 1, tags = None\<rparr>"

definition taskE :: SubeteTask where
  "taskE = \<lparr>id_U = ''e'', content = ''Plan'', status = ''today'', value_U = 1,
     time_U = 0, tags = None\<rparr>"

definition env_absent :: "nat \<Rightarrow> read_attempt" where
  "env_absent attempt = FileAbsent"

definition env_two_tasks :: "nat \<Rightarrow> read_attempt" where
  "env_two_tasks attempt = FileArray [taskA, taskD]"

definition importer_polled :: importer where
  "importer_polled = refresh env_two_tasks (importer_init None)"

text \<open>
  A working network, a failing one, and one on which the bytes are too many to encode; a
  reconciler after its setup against an empty remote store; and the same reconciler after
  the user has then signed in, which runs the auth callback once.
\<close>

definition net_ok :: net_cond where
  "net_ok = \<lparr>getDocOk = True, setDocOk = True, encodeOk = True, applyOk = True,
     nowMs = 1704067200000\<rparr>"

definition net_down :: net_cond where
  "net_down = \<lparr>getDocOk = False, setDocOk = False, encodeOk = True, applyOk = True,
     nowMs = 1704067260000\<rparr>"

definition net_too_large :: net_cond where
  "net_too_large = \<lparr>getDocOk = True, setDocOk = True, encodeOk = False, applyOk = True,
     nowMs = 1704067320000\<rparr>"

definition attached :: reconciler where
  "attached = initFirebaseSync True True None net_ok (reconciler_init ''client-1'')"

definition signed_in :: reconciler where
  "signed_in = authStateCallback True True (Some ''uid-7'') net_ok attached"

section \<open>Properties of the completion relay\<close>

lemma timer_callback_is_retry:
  "retryTimeout (fst sf) = Some h \<Longrightarrow> retryTimerFires h io sf = retryPendingCompletions io sf"
  by (simp add: retryTimerFires_def retryPendingCompletions_def)

lemma pendingQueue_onFailure [simp]: "pendingQueue (onFailure r st) = requeue (pendingQueue st)"
  by (simp add: onFailure_def Let_def setTimeout_def clearTimeout_def split: option.splits)

lemma stage_nil_iff:
  "stage existing q = [] \<longleftrightarrow>
     (\<forall>x\<in>set q. dedupKey (taskId x) (completedAt x)
        \<in> set (map (\<lambda>c. dedupKey (taskId c) (completedAt c)) existing))"
  by (auto simp: stage_def Let_def filter_empty_conv)

lemma stage_no_existing [simp]: "stage [] q = map toCompletion q"
  by (simp add: stage_def)

lemma processQueue_failed:
  assumes "\<not> isProcessingQueue st"
    and "stage (readExistingCompletions file) (pendingQueue st) \<noteq> []"
    and "\<not> (dirOk io \<and> writeOk io)"
  shows "processQueue io (st, file) =
     ((onFailure (rnd io) (st\<lparr>isProcessingQueue := True\<rparr>))\<lparr>isProcessingQueue := False\<rparr>, file)"
proof -
  from assms(2) have "pendingQueue st \<noteq> []" by (auto simp: stage_def)
  with assms show ?thesis
    by (auto simp: processQueue_def processQueue_start_def processQueue_resume_def Let_def
        writeCompletionsToFile_def)
qed

lemma processQueue_succeeded:
  assumes "\<not> isProcessingQueue st" and "pendingQueue st \<noteq> []" and "dirOk io" and "writeOk io"
  shows "processQueue io (st, file) =
     (st\<lparr>pendingQueue := [], isProcessingQueue := False\<rparr>,
      if stage (readExistingCompletions file) (pendingQueue st) = [] then file
      else Entries (readExistingCompletions file
                      @ stage (readExistingCompletions file) (pendingQueue st)))"
  using assms
  by (auto simp: processQueue_def processQueue_start_def processQueue_resume_def Let_def
        writeCompletionsToFile_def)

lemma requeue_keys:
  "x \<in> set (requeue q) \<Longrightarrow> \<exists>y\<in>set q. taskId x = taskId y \<and> completedAt x = completedAt y"
  by (auto simp: requeue_def)

lemma retry_failed:
  assumes "\<not> isProcessingQueue st" and "\<not> (dirOk io \<and> writeOk io)"
    and "\<forall>x\<in>set (pendingQueue st). dedupKey (taskId x) (completedAt x) \<notin> fileKeys file"
  shows "snd (retryPendingCompletions io (st, file)) = file
    \<and> pendingQueue (fst (retryPendingCompletions io (st, file))) = requeue (pendingQueue st)
    \<and> \<not> isProcessingQueue (fst (retryPendingCompletions io (st, file)))"
proof -
  define st0 where
    "st0 = (case retryTimeout st of None \<Rightarrow> st
            | Some h \<Rightarrow> (clearTimeout h st)\<lparr>retryTimeout := None\<rparr>)"
  have q0: "pendingQueue st0 = pendingQueue st" and p0: "\<not> isProcessingQueue st0"
    using assms(1) by (auto simp: st0_def clearTimeout_def split: option.splits)
  have r: "retryPendingCompletions io (st, file) = processQueue io (st0, file)"
    by (simp add: retryPendingCompletions_def st0_def split: option.splits)
  show ?thesis
  proof (cases "pendingQueue st = []")
    case True
    then show ?thesis
      using q0 p0 by (simp add: r processQueue_def requeue_def)
  next
    case False
    then have "stage (readExistingCompletions file) (pendingQueue st0) \<noteq> []"
      using assms(3) q0 by (cases "pendingQueue st") (auto simp: stage_nil_iff fileKeys_def)
    from processQueue_failed[OF p0 this assms(2)]
    show ?thesis
      by (simp add: r q0)
  qed
qed

lemma requeue_funpow:
  "(requeue ^^ Suc n) q =
     map (\<lambda>item. item\<lparr>retryCount := retryCount item + Suc n\<rparr>)
       (filter (\<lambda>item. retryCount item + Suc n \<le> MAX_RETRIES) q)"
proof (induction n)
  case 0
  show ?case by (simp add: requeue_def Suc_le_eq)
next
  case (Suc n)
  have "(requeue ^^ Suc (Suc n)) q = requeue ((requeue ^^ Suc n) q)" by simp
  also have "\<dots> = map (\<lambda>item. item\<lparr>retryCount := retryCount item + Suc (Suc n)\<rparr>)
      (filter (\<lambda>item. retryCount item + Suc (Suc n) \<le> MAX_RETRIES) q)"
    unfolding Suc.IH unfolding requeue_def
    by (simp add: filter_map o_def Suc_le_eq)
       (intro arg_cong2[where f=map] filter_cong refl, auto)
  finally show ?case .
qed

lemma runs_failed:
  assumes "\<forall>io\<in>set ios. \<not> (dirOk io \<and> writeOk io)"
    and "\<not> isProcessingQueue st"
    and "\<forall>x\<in>set (pendingQueue st). dedupKey (taskId x) (completedAt x) \<notin> fileKeys file"
  shows "snd (runs ios (st, file)) = file \<and>
     pendingQueue (fst (runs ios (st, file))) = (requeue ^^ length ios) (pendingQueue st)"
  using assms
proof (induction ios arbitrary: st)
  case Nil
  show ?case by simp
next
  case (Cons io ios)
  obtain st1 f1 where s1: "retryPendingCompletions io (st, file) = (st1, f1)"
    by (cases "retryPendingCompletions io (st, file)")
  have io: "\<not> (dirOk io \<and> writeOk io)" using Cons.prems(1) by simp
  from retry_failed[OF Cons.prems(2) io Cons.prems(3)] s1
  have f1: "f1 = file" and q1: "pendingQueue st1 = requeue (pendingQueue st)"
    and p1: "\<not> isProcessingQueue st1" by simp_all
  have k1: "\<forall>x\<in>set (pendingQueue st1). dedupKey (taskId x) (completedAt x) \<notin> fileKeys file"
    using Cons.prems(3) q1 by (auto dest!: requeue_keys)
  have "\<forall>io\<in>set ios. \<not> (dirOk io \<and> writeOk io)" using Cons.prems(1) by simp
  from Cons.IH[OF this p1 k1] show ?case
    by (simp add: s1 f1 q1 funpow_swap1)
qed

lemmas relay_unfold =
  retryPendingCompletions_def processQueue_def processQueue_start_def processQueue_resume_def
  stage_def toCompletion_def writeCompletionsToFile_def onFailure_def requeue_def
  MAX_RETRIES_def Let_def clearTimeout_def setTimeout_def minRetryCount_def getRetryDelay_def
  BASE_RETRY_DELAY_MS_def MAX_RETRY_DELAY_MS_def relay_init_def recordCompletion_def
  dedupKey_def io_fail_def io_ok_def q42_def relay_failed_once_def

text \<open>
  C1 (fails on the code). Two \<open>recordCompletion\<close> calls with the same task id in the same
  millisecond are both in the queue when the run started by the first call resumes after
  its read. The keys already present are computed from the file alone, so both items are
  staged and the file gets two entries with the same dedup key.
\<close>

theorem C1_same_run_two_entries:
  "entriesWithKey (dedupKey ''42'' ''2024-01-01T00:00:00.000Z'')
     (snd (processQueue_resume io_ok
        (recordCompletion ''42'' 25 None ''2024-01-01T00:00:00.000Z'' 1704067200000
           (recordCompletion ''42'' 25 None ''2024-01-01T00:00:00.000Z'' 1704067200000
              relay_init),
         Missing))) = 2"
  by (simp add: entriesWithKey_def relay_unfold)

text \<open>
  When the two items are processed by two runs that both succeed, and the file had no entry
  with their key before, the second run finds the key in the file and stages nothing: the
  file holds exactly one entry with the key.
\<close>

lemma dedup_across_runs:
  assumes "pendingQueue st = []" and "\<not> isProcessingQueue st"
    and "dedupKey t c \<notin> fileKeys file"
    and "dirOk io1" and "writeOk io1" and "dirOk io2" and "writeOk io2"
  shows "entriesWithKey (dedupKey t c)
     (snd (processQueue_resume io2
        (recordCompletion t d2 b2 c n2
           (fst (processQueue_resume io1 (recordCompletion t d1 b1 c n1 st, file))),
         snd (processQueue_resume io1 (recordCompletion t d1 b1 c n1 st, file))))) = 1"
proof -
  from assms(3)
  have "\<forall>x\<in>set (readExistingCompletions file).
          dedupKey (taskId x) (completedAt x) \<noteq> dedupKey t c"
    unfolding fileKeys_def set_map by (intro ballI notI) (erule notE, erule rev_image_eqI, erule sym)
  with assms show ?thesis
    by (simp add: entriesWithKey_def fileKeys_def recordCompletion_def processQueue_start_def
        processQueue_resume_def stage_def toCompletion_def writeCompletionsToFile_def Let_def
        filter_empty_conv)
qed

text \<open>
  C2 (amended). A run fails when something is staged and the write throws. Each failed run
  keeps exactly the items whose \<open>retryCount\<close> is below 5 and adds one to it, and leaves the
  file as it was. So after \<open>n \<ge> 1\<close> consecutive failed runs the queue holds the items whose
  \<open>retryCount + n\<close> is at most 5: an item queued with \<open>retryCount = 0\<close> is still pending
  after 5 failed runs and is dropped by the sixth.
\<close>

theorem C2_retry_ceiling:
  assumes "\<not> isProcessingQueue st"
    and "\<forall>x\<in>set (pendingQueue st). dedupKey (taskId x) (completedAt x) \<notin> fileKeys file"
    and "\<forall>io\<in>set ios. \<not> (dirOk io \<and> writeOk io)"
    and "ios \<noteq> []"
  shows "snd (runs ios (st, file)) = file \<and>
     pendingQueue (fst (runs ios (st, file))) =
       map (\<lambda>item. item\<lparr>retryCount := retryCount item + length ios\<rparr>)
         (filter (\<lambda>item. retryCount item + length ios \<le> MAX_RETRIES) (pendingQueue st))"
proof -
  obtain n where n: "length ios = Suc n" using assms(4) by (cases ios) auto
  from runs_failed[OF assms(3) assms(1) assms(2)] show ?thesis
    unfolding n requeue_funpow by simp
qed

theorem C2_retry_ceiling_witness:
  "pendingQueue (fst relay_failed_once) = [q42\<lparr>retryCount := 1\<rparr>]
   \<and> snd relay_failed_once = Missing
   \<and> pendingQueue (fst (runs [io_fail, io_fail, io_fail, io_fail] relay_failed_once))
       = [q42\<lparr>retryCount := 5\<rparr>]
   \<and> pendingQueue (fst (runs [io_fail, io_fail, io_fail, io_fail, io_fail] relay_failed_once))
       = []
   \<and> snd (runs [io_fail, io_fail, io_fail, io_fail, io_fail] relay_failed_once) = Missing"
  using C2_retry_ceiling [of "fst relay_failed_once" Missing
      "[io_fail, io_fail, io_fail, io_fail]"]
    C2_retry_ceiling [of "fst relay_failed_once" Missing
      "[io_fail, io_fail, io_fail, io_fail, io_fail]"]
  by (simp add: relay_unfold fileKeys_def)

text \<open>
  C2 as stated is false: after five consecutive failed attempts (the run started by
  \<open>recordCompletion\<close> and four retries) the item is still in the queue, and a sixth attempt
  that succeeds writes it to the file.
\<close>

theorem C2_five_failures_counterexample:
  "pendingQueue (fst (runs [io_fail, io_fail, io_fail, io_fail] relay_failed_once))
     = [q42\<lparr>retryCount := 5\<rparr>]
   \<and> runs [io_fail, io_fail, io_fail, io_fail, io_ok] relay_failed_once
     = (\<lparr>pendingQueue = [], isProcessingQueue = False, retryTimeout = None, timers = [],
          nextHandle = 6\<rparr>, Entries [toCompletion q42])"
  by (simp add: relay_unfold)

text \<open>What a run leaves in the file was in the file or in the queue before.\<close>

lemma written_entries_from_queue:
  "set (readExistingCompletions (snd (processQueue io (st, file))))
     \<subseteq> set (readExistingCompletions file) \<union> toCompletion ` set (pendingQueue st)"
  by (auto simp: processQueue_def processQueue_start_def processQueue_resume_def Let_def
      writeCompletionsToFile_def stage_def split: option.splits if_splits)

text \<open>
  C10. A completions file that cannot be read or parsed, or whose JSON is not an array, is
  read as the empty list. A run that then succeeds stages every queued item and writes
  exactly these: nothing of the old content is in the new file.
\<close>

theorem C10_unreadable_file_replaced:
  assumes "file = Unreadable \<or> file = NonArray s"
    and "\<not> isProcessingQueue st" and "pendingQueue st \<noteq> []"
    and "dirOk io" and "writeOk io"
  shows "readExistingCompletions file = [] \<and>
     processQueue io (st, file) =
       (st\<lparr>pendingQueue := [], isProcessingQueue := False\<rparr>,
        Entries (map toCompletion (pendingQueue st)))"
proof -
  from assms(1) have e: "readExistingCompletions file = []" by auto
  from assms(3) have "map toCompletion (pendingQueue st) \<noteq> []" by simp
  with processQueue_succeeded[OF assms(2-5)] e show ?thesis by simp
qed

theorem C10_unreadable_file_replaced_witness:
  "readExistingCompletions (NonArray ''{\"old\": 1}'') = [] \<and>
   processQueue io_ok (relay_init\<lparr>pendingQueue := [q42]\<rparr>, NonArray ''{\"old\": 1}'') =
     (relay_init, Entries [toCompletion q42])"
  using C10_unreadable_file_replaced [of "NonArray ''{\"old\": 1}''" "''{\"old\": 1}''"
      "relay_init\<lparr>pendingQueue := [q42]\<rparr>" io_ok]
  by (simp add: relay_init_def io_ok_def)

lemma getRetryDelay_bounds:
  assumes "0 \<le> r" and "r < 1"
  shows "min (BASE_RETRY_DELAY_MS * 2 ^ n) MAX_RETRY_DELAY_MS \<le> getRetryDelay n r"
    and "getRetryDelay n r < min (BASE_RETRY_DELAY_MS * 2 ^ n) MAX_RETRY_DELAY_MS + 1000"
  using assms by (simp_all add: getRetryDelay_def Let_def)

lemma uncapped_upto_4:
  assumes "n \<le> 4"
  shows "min (BASE_RETRY_DELAY_MS * 2 ^ n) MAX_RETRY_DELAY_MS = BASE_RETRY_DELAY_MS * 2 ^ n"
proof -
  have "(2::rat) ^ n \<le> 2 ^ 4" using assms by (intro power_increasing) auto
  then show ?thesis by (simp add: BASE_RETRY_DELAY_MS_def MAX_RETRY_DELAY_MS_def)
qed

lemma onFailure_timer:
  assumes "requeue (pendingQueue st) \<noteq> []"
  shows "retryTimeout (onFailure r st) = Some (nextHandle st)"
    and "timers (onFailure r st) =
       filter (\<lambda>t. Some (fst t) \<noteq> retryTimeout st) (timers st)
         @ [(nextHandle st, getRetryDelay (minRetryCount (requeue (pendingQueue st))) r)]"
  using assms
  by (auto simp: onFailure_def Let_def setTimeout_def clearTimeout_def split: option.splits)

text \<open>
  C6 (amended). A run in flight that fails and leaves a non-empty queue schedules one
  retry: the timer it had scheduled before, if any, is removed from the pending timers and
  one new timer is added. With \<open>n\<close> the least \<open>retryCount\<close> of the items left in the queue,
  the delay of the new timer is \<open>min (1000 * 2 ^ n) 30000\<close> plus a jitter in \<open>[0, 1000)\<close>: the
  cap bounds the exponential term, the jitter is added after it. For \<open>n \<le> 4\<close> the delay lies
  in \<open>[1000 * 2 ^ n, 1000 * 2 ^ n + 1000]\<close>.
\<close>

theorem C6_backoff_delay:
  assumes "isProcessingQueue st"
    and "stage (readExistingCompletions file) (pendingQueue st) \<noteq> []"
    and "\<not> (dirOk io \<and> writeOk io)"
    and "pendingQueue (fst (processQueue_resume io (st, file))) \<noteq> []"
    and "0 \<le> rnd io" and "rnd io < 1"
  shows "let st' = fst (processQueue_resume io (st, file));
             n = Min (set (map retryCount (pendingQueue st')));
             capped = min (BASE_RETRY_DELAY_MS * 2 ^ n) MAX_RETRY_DELAY_MS;
             d = capped + rnd io * 1000
         in retryTimeout st' = Some (nextHandle st)
          \<and> timers st' =
              filter (\<lambda>t. Some (fst t) \<noteq> retryTimeout st) (timers st) @ [(nextHandle st, d)]
          \<and> capped \<le> d \<and> d \<le> capped + 1000 \<and> capped \<le> MAX_RETRY_DELAY_MS
          \<and> (n \<le> 4 \<longrightarrow>
               BASE_RETRY_DELAY_MS * 2 ^ n \<le> d \<and> d \<le> BASE_RETRY_DELAY_MS * 2 ^ n + 1000)"
proof -
  have r: "processQueue_resume io (st, file) =
      ((onFailure (rnd io) st)\<lparr>isProcessingQueue := False\<rparr>, file)"
    using assms(1-3) by (auto simp: processQueue_resume_def Let_def writeCompletionsToFile_def)
  have q: "requeue (pendingQueue st) \<noteq> []" using assms(4) by (simp add: r)
  have d: "getRetryDelay n (rnd io) =
      min (BASE_RETRY_DELAY_MS * 2 ^ n) MAX_RETRY_DELAY_MS + rnd io * 1000" for n
    by (simp add: getRetryDelay_def)
  show ?thesis
    using onFailure_timer[OF q, of "rnd io"] getRetryDelay_bounds[OF assms(5,6)]
    by (auto simp: r d minRetryCount_def Let_def uncapped_upto_4)
qed

theorem C6_backoff_delay_witness:
  "retryTimeout relay_retrying = Some 1 \<and> timers relay_retrying = [(1, 2500)] \<and>
   pendingQueue (fst (processQueue_resume io_fail (relay_retrying, Missing))) \<noteq> [] \<and>
   retryTimeout (fst (processQueue_resume io_fail (relay_retrying, Missing))) = Some 2 \<and>
   timers (fst (processQueue_resume io_fail (relay_retrying, Missing))) = [(2, 2500)]"
  using C6_backoff_delay [of relay_retrying Missing io_fail]
  by (simp add: relay_retrying_def relay_unfold)

text \<open>
  C6 as stated is false at \<open>n = 5\<close>: the fifth consecutive failed attempt leaves the item
  with \<open>retryCount = 5\<close> and schedules the retry after 30500 ms (jitter 500), which is
  neither at most the maximum of 30000 nor in \<open>[1000 * 2 ^ 5, 1000 * 2 ^ 5 + 1000]\<close>.
\<close>

theorem C6_delay_exceeds_cap_counterexample:
  "map retryCount (pendingQueue (fst (runs [io_fail, io_fail, io_fail, io_fail]
       relay_failed_once))) = [5]
   \<and> timers (fst (runs [io_fail, io_fail, io_fail, io_fail] relay_failed_once)) = [(5, 30500)]
   \<and> \<not> (30500 \<le> MAX_RETRY_DELAY_MS)
   \<and> \<not> (BASE_RETRY_DELAY_MS * 2 ^ 5 \<le> 30500)"
  by (simp add: relay_unfold)

section \<open>Properties of the document store\<close>

lemma findIndex_None_iff: "findIndex P xs = None \<longleftrightarrow> (\<forall>x\<in>set xs. \<not> P x)"
  by (induction xs) auto

lemma findIndex_Some_lt: "findIndex P xs = Some i \<Longrightarrow> i < length xs"
  by (induction xs arbitrary: i) (auto split: if_splits)

lemma findIndex_first:
  "i < length xs \<Longrightarrow> P (xs ! i) \<Longrightarrow> (\<forall>j<i. \<not> P (xs ! j)) \<Longrightarrow> findIndex P xs = Some i"
proof (induction xs arbitrary: i)
  case Nil
  then show ?case by simp
next
  case (Cons x xs)
  show ?case
  proof (cases i)
    case 0
    with Cons.prems show ?thesis by simp
  next
    case (Suc k)
    with Cons.prems have "\<not> P x" by auto
    moreover have "findIndex P xs = Some k"
      using Cons.prems Suc by (intro Cons.IH) auto
    ultimately show ?thesis by (simp add: Suc)
  qed
qed

text \<open>Inside one transaction, delete-at-index then insert-at-index replaces the element.\<close>

lemma delete_insert_is_update:
  "i < length xs \<Longrightarrow> yarray_insert i [v] (yarray_delete i (Suc 0) xs) = xs[i := v]"
  by (simp add: yarray_insert_def yarray_delete_def upd_conv_take_nth_drop min_def)

lemma updateBlock_found:
  assumes "findIndex (\<lambda>b. id_B b = ident) (blocksArray d) = Some i"
  shows "updateBlock ident u d =
     d\<lparr>blocksArray := (blocksArray d)[i := spreadBlock (blocksArray d ! i) u],
       transactions := transactions d @ [[YDelete BlocksArray i 1, YInsert BlocksArray i 1]]\<rparr>"
  using assms findIndex_Some_lt[OF assms]
  by (simp add: updateBlock_def Let_def delete_insert_is_update)

lemmas doc_unfold =
  doc1_def addBreak_def addBlock_def addTask_def ydoc_empty_def block1_def block2_def
  break1_def task1_def allTrue_def

text \<open>
  C7. Let the block at position \<open>i\<close> be the block with the given id (the first one, should
  the id occur twice). \<open>completeBlock\<close> on that id sets \<open>completedAt\<close> of this block to the
  current time and leaves its \<open>isValid\<close> as it was, so a valid block stays valid; every
  other position of the sequence keeps its block, and the tasks (with their \<open>blocksSpent\<close>)
  and the other collections are unchanged.
\<close>

theorem C7_completeBlock_frame:
  assumes "i < length (blocksArray d)"
    and "id_B (blocksArray d ! i) = ident"
    and "\<forall>j<i. id_B (blocksArray d ! j) \<noteq> ident"
  shows "let d' = completeBlock blocks ident celebrate now d in
       length (blocksArray d') = length (blocksArray d)
     \<and> completedAt_B (blocksArray d' ! i) = Some now
     \<and> isValid (blocksArray d' ! i) = isValid (blocksArray d ! i)
     \<and> (\<forall>j<length (blocksArray d). j \<noteq> i \<longrightarrow> blocksArray d' ! j = blocksArray d ! j)
     \<and> tasksMap d' = tasksMap d
     \<and> breaksArray d' = breaksArray d
     \<and> rightNowListsMap d' = rightNowListsMap d
     \<and> taskNotesMap d' = taskNotesMap d"
proof -
  have "findIndex (\<lambda>b. id_B b = ident) (blocksArray d) = Some i"
    using assms by (intro findIndex_first) auto
  then show ?thesis
    using assms(1)
    by (simp add: completeBlock_def updateBlock_found spreadBlock_def orElse_def
        noBlockUpdates_def)
qed

theorem C7_completeBlock_frame_witness:
  "0 < length (blocksArray doc1) \<and> id_B (blocksArray doc1 ! 0) = ''b1''
   \<and> isValid (blocksArray doc1 ! 0)
   \<and> blocksArray (completeBlock (blocksArray doc1) ''b1'' True 1704068700000 doc1)
       = [block1\<lparr>completedAt_B := Some 1704068700000\<rparr>, block2]
   \<and> isValid (blocksArray (completeBlock (blocksArray doc1) ''b1'' True 1704068700000 doc1) ! 0)
   \<and> map_option blocksSpent
        (tasksMap (completeBlock (blocksArray doc1) ''b1'' True 1704068700000 doc1) ''t1'')
       = Some 0"
  using C7_completeBlock_frame [of 0 doc1 "''b1''" "blocksArray doc1" True 1704068700000]
  by (simp add: doc_unfold Let_def completeBlock_def updateBlock_def yarray_insert_def
      yarray_delete_def spreadBlock_def orElse_def noBlockUpdates_def)

text \<open>
  C9. When no block (no break) has the given id, \<open>updateBlock\<close> (\<open>updateBreak\<close>) returns the
  document as it was: every collection is unchanged and no transaction is logged.
\<close>

theorem C9_update_absent_id_noop:
  "(ident \<notin> set (map id_B (blocksArray d)) \<longrightarrow> updateBlock ident u d = d)
 \<and> (ident \<notin> set (map id_K (breaksArray d)) \<longrightarrow> updateBreak ident v d = d)"
proof -
  have "findIndex (\<lambda>b. id_B b = ident) (blocksArray d) = None"
    if "ident \<notin> set (map id_B (blocksArray d))"
    using that by (auto simp: findIndex_None_iff)
  moreover have "findIndex (\<lambda>b. id_K b = ident) (breaksArray d) = None"
    if "ident \<notin> set (map id_K (breaksArray d))"
    using that by (auto simp: findIndex_None_iff)
  ultimately show ?thesis
    by (simp add: updateBlock_def updateBreak_def)
qed

theorem C9_update_absent_id_noop_witness:
  "''b9'' \<notin> set (map id_B (blocksArray doc1)) \<and> ''b9'' \<notin> set (map id_K (breaksArray doc1))
   \<and> updateBlock ''b9'' (noBlockUpdates\<lparr>u_isValid := Some False\<rparr>) doc1 = doc1
   \<and> updateBreak ''b9'' (noBreakUpdates\<lparr>u_endedAt := Some (Some 1704069000000)\<rparr>) doc1 = doc1"
  using C9_update_absent_id_noop [of "''b9''" doc1 "noBlockUpdates\<lparr>u_isValid := Some False\<rparr>"
      "noBreakUpdates\<lparr>u_endedAt := Some (Some 1704069000000)\<rparr>"]
  by (simp add: doc_unfold)

section \<open>Properties of the external task importer\<close>

lemma readSharedTasks_absent: "env 0 = FileAbsent \<Longrightarrow> readSharedTasks env = Inr ([], False)"
  by (simp add: readSharedTasks_def MAX_RETRIES_tasks_def)

lemmas importer_unfold =
  refresh_def onReadSuccess_def onReadFailure_def showToast_def importer_init_def
  loadCachedTasks_def readSharedTasks_def MAX_RETRIES_tasks_def importer_polled_def Let_def
  env_absent_def env_two_tasks_def

text \<open>
  C3 (amended). A poll that finds no file is a successful read of the empty list: the
  status becomes \<open>synced\<close> (neither \<open>error\<close> nor \<open>offline\<close>), the error is cleared, the
  in-memory list becomes empty, and the cache entry is left as it was.
\<close>

theorem C3_missing_file_poll:
  assumes "env 0 = FileAbsent"
  shows "syncStatus (refresh env st) = StatusSynced
     \<and> error (refresh env st) = None
     \<and> tasks (refresh env st) = []
     \<and> cache (refresh env st) = cache st
     \<and> consecutiveErrors (refresh env st) = 0
     \<and> \<not> loading (refresh env st)"
  using assms
  by (simp add: readSharedTasks_absent refresh_def onReadSuccess_def Let_def showToast_def
      split: option.splits)

theorem C3_missing_file_poll_witness:
  "tasks importer_polled = [taskA, taskD] \<and> cache importer_polled = Some [taskA, taskD]
   \<and> syncStatus (refresh env_absent importer_polled) = StatusSynced
   \<and> tasks (refresh env_absent importer_polled) = []
   \<and> cache (refresh env_absent importer_polled) = Some [taskA, taskD]
   \<and> toasts (refresh env_absent importer_polled) = [TaskListUpdated 0]"
  using C3_missing_file_poll [of env_absent importer_polled]
  by (simp add: importer_unfold)

text \<open>
  C3 as stated is false: the hook mounts with the cached list visible; the first poll finds
  no file and leaves the status \<open>synced\<close>, not \<open>offline\<close>, and the visible list empty.
\<close>

theorem C3_missing_file_counterexample:
  "tasks (importer_init (Some [taskA])) = [taskA]
   \<and> syncStatus (refresh env_absent (importer_init (Some [taskA]))) = StatusSynced
   \<and> syncStatus (refresh env_absent (importer_init (Some [taskA]))) \<noteq> StatusOffline
   \<and> tasks (refresh env_absent (importer_init (Some [taskA]))) = []"
  by (simp add: importer_unfold)

lemma js_positive_minus:
  "nonnegative x \<Longrightarrow> nonnegative y \<Longrightarrow> js_positive (js_minus y x) \<longleftrightarrow> \<not> js_le y x"
  by (cases x; cases y) auto

lemma js_le_total: "nonnegative x \<Longrightarrow> nonnegative y \<Longrightarrow> js_le x y \<or> js_le y x"
  by (cases x; cases y) auto

lemma js_le_trans: "js_le x y \<Longrightarrow> js_le y z \<Longrightarrow> js_le x z"
  by (cases x; cases y; cases z) auto

lemma ratio_nonnegative:
  assumes "\<forall>v t. 0 \<le> v \<and> 0 < t \<longrightarrow> nonnegative (dv v t)" and "0 \<le> value_U a"
  shows "nonnegative (ratio dv a)"
  using assms by (auto simp: ratio_def)

lemma mset_insert_sorted: "mset (insert_sorted c x ys) = add_mset x (mset ys)"
  by (induction ys) auto

lemma mset_array_sort: "mset (array_sort c xs) = mset xs"
  by (induction xs) (auto simp: array_sort_def mset_insert_sorted)

lemma set_insert_sorted: "set (insert_sorted c x ys) = insert x (set ys)"
  by (induction ys) auto

lemma sorted_insert_sorted:
  assumes dv: "\<forall>v t. 0 \<le> v \<and> 0 < t \<longrightarrow> nonnegative (dv v t)"
    and "0 \<le> value_U x" and "\<forall>y\<in>set ys. 0 \<le> value_U y"
    and "sorted_wrt (\<lambda>a b. js_le (ratio dv b) (ratio dv a)) ys"
  shows "sorted_wrt (\<lambda>a b. js_le (ratio dv b) (ratio dv a))
           (insert_sorted (comparePriority dv) x ys)"
  using assms(3,4)
proof (induction ys)
  case Nil
  then show ?case by simp
next
  case (Cons y ys)
  have nx: "nonnegative (ratio dv x)" using dv assms(2) by (rule ratio_nonnegative)
  have ny: "nonnegative (ratio dv y)"
    using dv Cons.prems(1) by (auto intro: ratio_nonnegative)
  show ?case
  proof (cases "js_positive (comparePriority dv x y)")
    case True
    then have "\<not> js_le (ratio dv y) (ratio dv x)"
      using nx ny by (simp add: comparePriority_def js_positive_minus)
    then have "js_le (ratio dv x) (ratio dv y)" using js_le_total[OF nx ny] by simp
    with True Cons show ?thesis
      by (auto simp: set_insert_sorted)
  next
    case False
    then have xy: "js_le (ratio dv y) (ratio dv x)"
      using nx ny by (simp add: comparePriority_def js_positive_minus)
    have "js_le (ratio dv z) (ratio dv x)" if "z \<in> set ys" for z
      using Cons.prems(2) that xy by (auto intro: js_le_trans)
    with False xy Cons.prems show ?thesis by auto
  qed
qed

lemma sorted_sortTasksByPriority:
  assumes dv: "\<forall>v t. 0 \<le> v \<and> 0 < t \<longrightarrow> nonnegative (dv v t)"
    and "\<forall>y\<in>set ts. 0 \<le> value_U y"
  shows "sorted_wrt (\<lambda>a b. js_le (ratio dv b) (ratio dv a)) (sortTasksByPriority dv ts)"
  using assms(2)
proof (induction ts)
  case Nil
  then show ?case by (simp add: sortTasksByPriority_def array_sort_def)
next
  case (Cons t ts)
  have s: "sortTasksByPriority dv (t # ts) =
      insert_sorted (comparePriority dv) t (sortTasksByPriority dv ts)"
    by (simp add: sortTasksByPriority_def array_sort_def)
  have "set (sortTasksByPriority dv ts) = set ts"
    using mset_array_sort[of "comparePriority dv" ts]
    by (metis mset_eq_setD sortTasksByPriority_def)
  with Cons show ?case unfolding s
    by (intro sorted_insert_sorted[OF dv]) auto
qed

text \<open>
  C8. Let the division give, for a nonnegative value and a positive time, a nonnegative
  number or \<open>Infinity\<close> (as the division of doubles does). For tasks with nonnegative value
  and time, \<open>sortTasksByPriority\<close> returns a permutation of the tasks in which the ratio
  never increases from one task to a later one. A task with zero time and positive value
  has the ratio \<open>Infinity\<close>, which is at least the ratio of every task, and the comparator
  never puts it behind another task; a task with zero time and zero value has the ratio 0,
  which is at most the ratio of every task, and the comparator never puts another task
  behind it.
\<close>

theorem C8_sortTasksByPriority:
  assumes "\<forall>v t. 0 \<le> v \<and> 0 < t \<longrightarrow> nonnegative (dv v t)"
    and "\<forall>t\<in>set ts. 0 \<le> value_U t \<and> 0 \<le> time_U t"
  shows "mset (sortTasksByPriority dv ts) = mset ts
     \<and> sorted_wrt (\<lambda>a b. js_le (ratio dv b) (ratio dv a)) (sortTasksByPriority dv ts)
     \<and> (\<forall>a\<in>set ts. \<forall>b\<in>set ts. time_U a = 0 \<and> 0 < value_U a \<longrightarrow>
           ratio dv a = PosInf \<and> js_le (ratio dv b) (ratio dv a)
           \<and> \<not> js_positive (comparePriority dv a b))
     \<and> (\<forall>a\<in>set ts. \<forall>b\<in>set ts. time_U a = 0 \<and> value_U a = 0 \<longrightarrow>
           ratio dv a = Num 0 \<and> js_le (ratio dv a) (ratio dv b)
           \<and> \<not> js_positive (comparePriority dv b a))"
proof -
  have v: "\<forall>y\<in>set ts. 0 \<le> value_U y" using assms(2) by simp
  have n: "nonnegative (ratio dv b)" if "b \<in> set ts" for b
    using assms(1) v that by (auto intro: ratio_nonnegative)
  have top: "ratio dv a = PosInf \<and> js_le (ratio dv b) (ratio dv a)
      \<and> \<not> js_positive (comparePriority dv a b)"
    if "b \<in> set ts" "time_U a = 0" "0 < value_U a" for a b
  proof -
    have a: "ratio dv a = PosInf" using that by (simp add: ratio_def)
    show ?thesis using n[OF that(1)] a
      by (cases "ratio dv b") (simp_all add: comparePriority_def)
  qed
  have bot: "ratio dv a = Num 0 \<and> js_le (ratio dv a) (ratio dv b)
      \<and> \<not> js_positive (comparePriority dv b a)"
    if "b \<in> set ts" "time_U a = 0" "value_U a = 0" for a b
  proof -
    have a: "ratio dv a = Num 0" using that by (simp add: ratio_def)
    show ?thesis using n[OF that(1)] a
      by (cases "ratio dv b") (simp_all add: comparePriority_def)
  qed
  have m: "mset (sortTasksByPriority dv ts) = mset ts"
    by (simp add: sortTasksByPriority_def mset_array_sort)
  have T: "\<forall>a\<in>set ts. \<forall>b\<in>set ts. time_U a = 0 \<and> 0 < value_U a \<longrightarrow>
           ratio dv a = PosInf \<and> js_le (ratio dv b) (ratio dv a)
           \<and> \<not> js_positive (comparePriority dv a b)"
    using top by blast
  have B: "\<forall>a\<in>set ts. \<forall>b\<in>set ts. time_U a = 0 \<and> value_U a = 0 \<longrightarrow>
           ratio dv a = Num 0 \<and> js_le (ratio dv a) (ratio dv b)
           \<and> \<not> js_positive (comparePriority dv b a)"
    using bot by blast
  from m sorted_sortTasksByPriority[OF assms(1) v] T B show ?thesis
    by (intro conjI)
qed

theorem C8_sortTasksByPriority_witness:
  "sortTasksByPriority js_div [taskA, taskB, taskC, taskD, taskE]
     = [taskC, taskE, taskD, taskA, taskB]
   \<and> map (ratio js_div) [taskC, taskE, taskD, taskA, taskB]
     = [PosInf, PosInf, Num 4, Num (3 / 2), Num 0]"
  using C8_sortTasksByPriority [of js_div "[taskA, taskB, taskC, taskD, taskE]"]
  by (simp add: sortTasksByPriority_def array_sort_def comparePriority_def ratio_def js_div_def
      taskA_def taskB_def taskC_def taskD_def taskE_def)

section \<open>Properties of the remote reconciler\<close>

lemma pushHandler_fields [simp]:
  "unsubscribe (pushHandler net upd origin st ref) = unsubscribe st"
  "pushListeners (pushHandler net upd origin st ref) = pushListeners st"
  "docUpdates (pushHandler net upd origin st ref) = docUpdates st"
  "clientId (pushHandler net upd origin st ref) = clientId st"
  by (simp_all add: pushHandler_def encodeUpdate_def setDoc_def setSyncState_def Let_def)

lemma foldl_pushHandler_fields [simp]:
  "unsubscribe (foldl (pushHandler net upd origin) st refs) = unsubscribe st"
  "pushListeners (foldl (pushHandler net upd origin) st refs) = pushListeners st"
  "docUpdates (foldl (pushHandler net upd origin) st refs) = docUpdates st"
  "clientId (foldl (pushHandler net upd origin) st refs) = clientId st"
  by (induction refs arbitrary: st) simp_all

lemma foldl_pushHandler_remote:
  "foldl (pushHandler net upd ''firebase'') st refs = st"
  by (induction refs arbitrary: st) (simp_all add: pushHandler_def)

lemma foldl_pushHandler_failed:
  "origin \<noteq> ''firebase'' \<Longrightarrow> \<not> (encodeOk net \<and> setDocOk net) \<Longrightarrow> refs \<noteq> [] \<Longrightarrow>
   syncState (foldl (pushHandler net upd origin) st refs) = Offline"
proof (induction refs arbitrary: st rule: rev_induct)
  case Nil
  then show ?case by simp
next
  case (snoc r refs)
  then show ?case
    by (auto simp: pushHandler_def encodeUpdate_def setSyncState_def setDoc_def Let_def)
qed

lemma foldl_pushHandler_ok:
  "origin \<noteq> ''firebase'' \<Longrightarrow> encodeOk net \<Longrightarrow> setDocOk net \<Longrightarrow> refs \<noteq> [] \<Longrightarrow>
   syncState (foldl (pushHandler net upd origin) st refs) = Synced"
proof (induction refs arbitrary: st rule: rev_induct)
  case Nil
  then show ?case by simp
next
  case (snoc r refs)
  then show ?case
    by (simp add: pushHandler_def encodeUpdate_def setSyncState_def setDoc_def Let_def)
qed

lemma foldl_pushHandler_calls:
  "origin \<noteq> ''firebase'' \<Longrightarrow> encodeOk net \<Longrightarrow>
   map fst (setDocCalls (foldl (pushHandler net upd origin) st refs))
     = map fst (setDocCalls st) @ refs"
  by (induction refs arbitrary: st)
     (simp_all add: pushHandler_def encodeUpdate_def setSyncState_def setDoc_def Let_def)

lemma foldl_pushHandler_not_encoded:
  "\<not> encodeOk net \<Longrightarrow>
   setDocCalls (foldl (pushHandler net upd origin) st refs) = setDocCalls st"
  by (induction refs arbitrary: st)
     (simp_all add: pushHandler_def encodeUpdate_def setSyncState_def Let_def)

lemma ydocUpdate_fields [simp]:
  "unsubscribe (ydocUpdate net upd origin st) = unsubscribe st"
  "pushListeners (ydocUpdate net upd origin st) = pushListeners st"
  "clientId (ydocUpdate net upd origin st) = clientId st"
  "docUpdates (ydocUpdate net upd origin st)
     = docUpdates st @ map (\<lambda>change. (change, origin)) upd"
  by (simp_all add: ydocUpdate_def)

lemma onSnapshotError_fields [simp]:
  "unsubscribe (onSnapshotError st) = unsubscribe st"
  "pushListeners (onSnapshotError st) = pushListeners st"
  "setDocCalls (onSnapshotError st) = setDocCalls st"
  by (simp_all add: onSnapshotError_def setSyncState_def)

lemmas reconciler_unfold =
  attached_def signed_in_def authStateCallback_def destroyFirebaseSync_def
  initFirebaseSync_def setupSync_def setSyncState_def reconciler_init_def
  net_ok_def net_down_def net_too_large_def getSyncDocId_def ANONYMOUS_DOC_ID_def setDoc_def
  encodeUpdate_def encodeStateAsUpdate_def Let_def ydocUpdate_def pushHandler_def
  onSnapshotNext_def onSnapshotError_def

text \<open>
  C4 (amended). With the reconciler set up, a local delta whose push fails (the record
  cannot be encoded, or \<open>setDoc\<close> is rejected), and an error of the snapshot listener, both
  set the sync state to \<open>offline\<close> (not \<open>error\<close>). The subscription and the push handlers
  stay as they were, so the next local delta is pushed (one \<open>setDoc\<close> call for each handler,
  state \<open>synced\<close> when it succeeds) and the next snapshot is handled.
\<close>

theorem C4_failure_keeps_reconciler_attached:
  assumes "unsubscribe st = Some ref" and "pushListeners st \<noteq> []"
    and "origin \<noteq> ''firebase''" and "\<not> (encodeOk net \<and> setDocOk net)"
    and "st' = ydocUpdate net upd origin st \<or> st' = onSnapshotError st"
    and "origin' \<noteq> ''firebase''" and "encodeOk net'" and "setDocOk net'"
  shows "syncState st' = Offline
     \<and> unsubscribe st' = unsubscribe st
     \<and> pushListeners st' = pushListeners st
     \<and> syncState (ydocUpdate net' upd' origin' st') = Synced
     \<and> map fst (setDocCalls (ydocUpdate net' upd' origin' st'))
         = map fst (setDocCalls st') @ pushListeners st
     \<and> syncState (onSnapshotNext net' snapshot st') = Synced"
proof -
  have a: "syncState st' = Offline"
    using assms(1-5)
    by (auto simp: ydocUpdate_def foldl_pushHandler_failed onSnapshotError_def setSyncState_def)
  have b: "unsubscribe st' = unsubscribe st" "pushListeners st' = pushListeners st"
    using assms(5) by auto
  have c: "syncState (ydocUpdate net' upd' origin' st') = Synced"
    using assms(2,6,7,8) b by (simp add: ydocUpdate_def foldl_pushHandler_ok)
  have d: "map fst (setDocCalls (ydocUpdate net' upd' origin' st'))
         = map fst (setDocCalls st') @ pushListeners st"
    using assms(6,7) b by (simp add: ydocUpdate_def foldl_pushHandler_calls)
  have e: "syncState (onSnapshotNext net' snapshot st') = Synced"
    using assms(1) b by (simp add: onSnapshotNext_def setSyncState_def Let_def)
  from a b c d e show ?thesis by simp
qed

theorem C4_failure_keeps_reconciler_attached_witness:
  "unsubscribe attached = Some ANONYMOUS_DOC_ID \<and> pushListeners attached = [ANONYMOUS_DOC_ID]
   \<and> syncState attached = Synced
   \<and> unsubscribe (ydocUpdate net_down [''c1''] ''local'' attached) = Some ANONYMOUS_DOC_ID
   \<and> pushListeners (onSnapshotError attached) = [ANONYMOUS_DOC_ID]
   \<and> syncState (ydocUpdate net_ok [''c2''] ''local''
        (ydocUpdate net_down [''c1''] ''local'' attached)) = Synced
   \<and> syncState (ydocUpdate net_too_large [''c1''] ''local'' attached) = Offline
   \<and> map fst (setDocCalls (ydocUpdate net_ok [''c2''] ''local'' (onSnapshotError attached)))
       = [ANONYMOUS_DOC_ID, ANONYMOUS_DOC_ID]"
  using C4_failure_keeps_reconciler_attached [of attached ANONYMOUS_DOC_ID "''local''" net_down
      "ydocUpdate net_down [''c1''] ''local'' attached" "[''c1'']" "''local''" net_ok "[''c2'']" None]
    C4_failure_keeps_reconciler_attached [of attached ANONYMOUS_DOC_ID "''local''" net_down
      "onSnapshotError attached" "[''c1'']" "''local''" net_ok "[''c2'']" None]
    C4_failure_keeps_reconciler_attached [of attached ANONYMOUS_DOC_ID "''local''" net_too_large
      "ydocUpdate net_too_large [''c1''] ''local'' attached" "[''c1'']" "''local''" net_ok
      "[''c2'']" None]
  by (simp add: reconciler_unfold)

text \<open>
  C4 as stated is false: after a successful setup, a failed push and a snapshot error both
  leave the sync state \<open>offline\<close>, not \<open>error\<close>.
\<close>

theorem C4_state_offline_counterexample:
  "syncState (ydocUpdate net_down [''c1''] ''local'' attached) = Offline
   \<and> syncState (ydocUpdate net_down [''c1''] ''local'' attached) \<noteq> Error
   \<and> syncState (onSnapshotError attached) = Offline
   \<and> syncState (onSnapshotError attached) \<noteq> Error"
  by (simp add: reconciler_unfold)

text \<open>
  The two origin tests do what they are there for. The snapshot handler leaves the
  document alone when the record's origin is this replica's client id, and applies the
  update of any other record with the remote tag; no snapshot makes a \<open>setDoc\<close> call, and a
  delta with the remote tag makes none either.
\<close>

lemma remote_delta_not_pushed:
  "setDocCalls (ydocUpdate net upd ''firebase'' st) = setDocCalls st"
  by (simp add: ydocUpdate_def foldl_pushHandler_remote)

lemma snapshot_never_pushes:
  "setDocCalls (onSnapshotNext net snapshot st) = setDocCalls st"
  by (simp add: onSnapshotNext_def setSyncState_def Let_def remote_delta_not_pushed
      split: option.splits)

lemma echo_not_applied:
  "origin_R data = clientId st \<Longrightarrow>
   docUpdates (onSnapshotNext net (Some data) st) = docUpdates st"
  by (simp add: onSnapshotNext_def setSyncState_def Let_def split: option.splits)

lemma remote_record_applied:
  assumes "unsubscribe st = Some ref" and "update_R data = Some u"
    and "origin_R data \<noteq> clientId st" and "applyOk net"
  shows "docUpdates (onSnapshotNext net (Some data) st)
     = docUpdates st @ map (\<lambda>change. (change, ''firebase'')) u"
  using assms by (simp add: onSnapshotNext_def setSyncState_def Let_def)

text \<open>
  With exactly one push handler attached, as after the first \<open>setupSync\<close>, and a record that
  can be encoded, a local delta makes one \<open>setDoc\<close> call, and the record coming back
  changes nothing.
\<close>

lemma single_handler_one_push:
  assumes "pushListeners st = [ref]" and "origin \<noteq> ''firebase''" and "encodeOk net"
  shows "let st1 = ydocUpdate net upd origin st;
             pushed = \<lparr>update_R = Some upd, fullState = Some (map fst (docUpdates st) @ upd),
                       origin_R = clientId st, timestamp = nowMs net\<rparr>;
             st2 = onSnapshotNext net' (Some pushed) st1
         in setDocCalls st1 = setDocCalls st @ [(ref, pushed)]
          \<and> setDocCalls st2 = setDocCalls st @ [(ref, pushed)]
          \<and> docUpdates st2 = docUpdates st @ map (\<lambda>change. (change, origin)) upd"
proof -
  have p: "setDocCalls (ydocUpdate net upd origin st) = setDocCalls st @
     [(ref, \<lparr>update_R = Some upd, fullState = Some (map fst (docUpdates st) @ upd),
             origin_R = clientId st, timestamp = nowMs net\<rparr>)]"
    using assms
    by (simp add: ydocUpdate_def pushHandler_def encodeUpdate_def setDoc_def setSyncState_def
        Let_def encodeStateAsUpdate_def o_def)
  show ?thesis
    using p by (simp add: Let_def snapshot_never_pushes echo_not_applied)
qed

text \<open>
  C5 (fails on the code). \<open>destroyFirebaseSync\<close> ends the snapshot subscription but does not
  detach the push handler from the document, and the auth callback of
  \<open>initAuthAwareSync\<close> runs \<open>setupSync\<close> again, which attaches one more. After the user has
  signed in once, two handlers are attached: one local mutation makes two \<open>setDoc\<close> calls,
  one to the old record and one to the new, and there are still two after the new record
  has come back through the snapshot handler.
\<close>

theorem C5_two_pushes_after_sign_in:
  "pushListeners signed_in = [ANONYMOUS_DOC_ID, ''uid-7'']
   \<and> unsubscribe signed_in = Some ''uid-7''
   \<and> map fst (setDocCalls signed_in) = [ANONYMOUS_DOC_ID, ''uid-7'']
   \<and> map fst (setDocCalls (ydocUpdate net_ok [''c1''] ''local'' signed_in))
       = [ANONYMOUS_DOC_ID, ''uid-7'', ANONYMOUS_DOC_ID, ''uid-7'']
   \<and> map (origin_R \<circ> snd) (setDocCalls (ydocUpdate net_ok [''c1''] ''local'' signed_in))
       = [''client-1'', ''client-1'', ''client-1'', ''client-1'']
   \<and> map fst (setDocCalls (onSnapshotNext net_ok
        (remote (ydocUpdate net_ok [''c1''] ''local'' signed_in) ''uid-7'')
        (ydocUpdate net_ok [''c1''] ''local'' signed_in)))
       = [ANONYMOUS_DOC_ID, ''uid-7'', ANONYMOUS_DOC_ID, ''uid-7'']"
  by (simp add: reconciler_unfold)

text \<open>
  A second way to a number of pushes other than one: when the update or the full state is
  too large for \<open>encodeUpdate\<close>, the handler throws before \<open>setDoc\<close> and the mutation is not
  pushed at all.
\<close>

lemma large_update_not_pushed:
  "setDocCalls (ydocUpdate net_too_large [''c1''] ''local'' attached) = setDocCalls attached
   \<and> syncState (ydocUpdate net_too_large [''c1''] ''local'' attached) = Offline"
  by (simp add: reconciler_unfold)

end
